theory Spec2Isabelle
  imports Main "HOL-Library.Sublist" "HOL-Library.Multiset"
begin

section \<open>JavaScript string primitives\<close>

text \<open>
  SQL text and chat messages are modelled as \<open>string\<close>, restricted to ASCII: case mapping
  touches the 26 Latin letters only, and the regular-expression classes \<open>\s\<close> and \<open>\w\<close>
  are their ASCII members.
\<close>

definition lowerLetters :: string where
  "lowerLetters = ''abcdefghijklmnopqrstuvwxyz''"

definition upperLetters :: string where
  "upperLetters = ''ABCDEFGHIJKLMNOPQRSTUVWXYZ''"

definition digitChars :: string where
  "digitChars = ''0123456789''"

definition upperChar :: "char \<Rightarrow> char" where
  "upperChar c = (case map_of (zip lowerLetters upperLetters) c of Some u \<Rightarrow> u | None \<Rightarrow> c)"

definition lowerChar :: "char \<Rightarrow> char" where
  "lowerChar c = (case map_of (zip upperLetters lowerLetters) c of Some l \<Rightarrow> l | None \<Rightarrow> c)"

definition toUpperCase :: "string \<Rightarrow> string" where
  "toUpperCase s = map upperChar s"

definition toLowerCase :: "string \<Rightarrow> string" where
  "toLowerCase s = map lowerChar s"

text \<open>The class \<open>\s\<close> (also what \<open>trim\<close> strips): tab, LF, VT, FF, CR, space.\<close>

definition isSpace :: "char \<Rightarrow> bool" where
  "isSpace c \<longleftrightarrow> c \<in> set [CHR 0x09, CHR 0x0A, CHR 0x0B, CHR 0x0C, CHR 0x0D, CHR 0x20]"

text \<open>The class \<open>\w\<close>: letters, digits, underscore.\<close>

definition isWordChar :: "char \<Rightarrow> bool" where
  "isWordChar c \<longleftrightarrow> c \<in> set (lowerLetters @ upperLetters @ digitChars @ ''_'')"

definition trim :: "string \<Rightarrow> string" where
  "trim s = rev (dropWhile isSpace (rev (dropWhile isSpace s)))"

text \<open>\<open>hay.includes(needle)\<close> and \<open>s.startsWith(p)\<close>.\<close>

definition includesStr :: "string \<Rightarrow> string \<Rightarrow> bool" where
  "includesStr hay needle \<longleftrightarrow> sublist needle hay"

definition startsWith :: "string \<Rightarrow> string \<Rightarrow> bool" where
  "startsWith s p \<longleftrightarrow> prefix p s"

text \<open>\<open>s.split(d)\<close> for a one-character separator: never empty, keeps empty pieces.\<close>

fun split :: "char \<Rightarrow> string \<Rightarrow> string list" where
  "split d [] = [[]]"
| "split d (c # cs) =
     (if c = d then [] # split d cs
      else (case split d cs of [] \<Rightarrow> [[c]] | x # xs \<Rightarrow> (c # x) # xs))"

text \<open>Template interpolation of a numeric tenant id: its decimal digits.\<close>

function decimal :: "nat \<Rightarrow> string" where
  "decimal n = (if n < 10 then [digitChars ! n] else decimal (n div 10) @ [digitChars ! (n mod 10)])"
  by pat_completeness auto
termination
  by (relation "measure id") auto

declare decimal.simps [simp del]


section \<open>Allowlist policy (config/rickConfig.js)\<close>

definition allowedTables :: "string list" where
  "allowedTables = [''students'', ''grades'', ''assignments'', ''attendance'', ''courses'', ''classes'']"

definition blockedKeywords :: "string list" where
  "blockedKeywords = [''DROP'', ''DELETE'', ''UPDATE'', ''INSERT'', ''ALTER'', ''TRUNCATE'',
     ''GRANT'', ''REVOKE'', ''CREATE'', ''REPLACE'', ''EXEC'', ''EXECUTE'']"


section \<open>SQL validator (utils/sqlValidator.js)\<close>

record validation =
  v_valid :: bool
  v_error :: "string option"

record prepared =
  p_success :: bool
  p_error :: "string option"
  p_sql :: "string option"

text \<open>
  One attempt of the regular expression \<open>FROM\s+(\w+)\<close> (flag \<open>i\<close>) at the head of the
  text: the captured name and the text after the match. \<open>\s\<close> and \<open>\w\<close> are disjoint, so
  the greedy match is the only one.
\<close>

definition matchFromAt :: "string \<Rightarrow> (string \<times> string) option" where
  "matchFromAt s =
     (if toLowerCase (take 4 s) = ''from'' then
        (let a = drop 4 s;
             b = dropWhile isSpace a;
             name = takeWhile isWordChar b
         in if takeWhile isSpace a \<noteq> [] \<and> name \<noteq> [] then Some (name, dropWhile isWordChar b)
            else None)
      else None)"

text \<open>\<open>[...sql.matchAll(/FROM\s+(\w+)/gi)].map(match => match[1])\<close>: the scan resumes after
  each match, so matches do not overlap.\<close>

function fromTables :: "string \<Rightarrow> string list" where
  "fromTables [] = []"
| "fromTables (c # cs) =
     (case matchFromAt (c # cs) of
        Some (name, rest) \<Rightarrow> name # fromTables rest
      | None \<Rightarrow> fromTables cs)"
  by pat_completeness auto
termination
proof (relation "measure length")
  fix c :: char and cs :: string and x2 :: "string \<times> string" and name rest :: string
  assume m: "matchFromAt (c # cs) = Some x2" and x2: "(name, rest) = x2"
  from m x2 have "rest = dropWhile isWordChar (dropWhile isSpace (drop 4 (c # cs)))"
    by (auto simp: matchFromAt_def Let_def split: if_splits)
  then have "length rest \<le> length (drop 4 (c # cs))"
    by (metis length_dropWhile_le order_trans)
  moreover from m have "length (toLowerCase (take 4 (c # cs))) = 4"
    by (auto simp: matchFromAt_def split: if_splits)
  then have "4 \<le> length (c # cs)"
    by (simp add: toLowerCase_def)
  ultimately show "(rest, c # cs) \<in> measure length"
    by simp
qed simp_all

definition quote :: string where
  "quote = [CHR 0x27]"

definition validateSQL :: "string \<Rightarrow> nat \<Rightarrow> validation" where
  "validateSQL sql teacherId =
     (let upperSQL = toUpperCase sql in
      if \<not> startsWith (trim upperSQL) ''SELECT'' then
        \<lparr>v_valid = False, v_error = Some ''Only SELECT queries are allowed''\<rparr>
      else
        (case find (\<lambda>keyword. includesStr upperSQL keyword) blockedKeywords of
           Some keyword \<Rightarrow>
             \<lparr>v_valid = False, v_error = Some (''Blocked keyword detected: '' @ keyword)\<rparr>
         | None \<Rightarrow>
             (let tables = map toLowerCase (fromTables sql) in
              case find (\<lambda>table. table \<notin> set allowedTables) tables of
                Some table \<Rightarrow>
                  \<lparr>v_valid = False,
                   v_error = Some (''Table '' @ quote @ table @ quote @ '' is not allowed'')\<rparr>
              | None \<Rightarrow>
                  if \<not> includesStr (toLowerCase sql) ''teacher_id'' then
                    \<lparr>v_valid = False, v_error = Some ''Query must filter by teacher_id''\<rparr>
                  else \<lparr>v_valid = True, v_error = None\<rparr>)))"

text \<open>\<open>sql.replace(/where/i, r)\<close>: the leftmost occurrence only.\<close>

definition whereAt :: "string \<Rightarrow> bool" where
  "whereAt s \<longleftrightarrow> toLowerCase (take 5 s) = ''where''"

fun replaceWhere :: "string \<Rightarrow> string \<Rightarrow> string" where
  "replaceWhere [] r = []"
| "replaceWhere (c # cs) r =
     (if whereAt (c # cs) then r @ drop 5 (c # cs) else c # replaceWhere cs r)"

text \<open>\<open>sql.replace(/from\s+(\w+)/i, `FROM $1 WHERE teacher_id = ${teacherId}`)\<close>: the leftmost
  match only; \<open>tid\<close> is the interpolated id.\<close>

fun replaceFrom :: "string \<Rightarrow> string \<Rightarrow> string" where
  "replaceFrom [] tid = []"
| "replaceFrom (c # cs) tid =
     (case matchFromAt (c # cs) of
        Some (name, rest) \<Rightarrow> ''FROM '' @ name @ '' WHERE teacher_id = '' @ tid @ rest
      | None \<Rightarrow> c # replaceFrom cs tid)"

definition injectTeacherFilter :: "string \<Rightarrow> nat \<Rightarrow> string" where
  "injectTeacherFilter sql teacherId =
     (let lowerSQL = toLowerCase sql in
      if includesStr lowerSQL ''where'' then
        replaceWhere sql (''WHERE teacher_id = '' @ decimal teacherId @ '' AND'')
      else if includesStr lowerSQL ''from'' then
        replaceFrom sql (decimal teacherId)
      else sql)"

text \<open>\<open>sql.split(';').filter(s => s.trim())\<close>: the pieces that are not blank.\<close>

definition statements :: "string \<Rightarrow> string list" where
  "statements sql = filter (\<lambda>s. trim s \<noteq> []) (split CHR '';'' sql)"

definition sanitizeSQL :: "string \<Rightarrow> string" where
  "sanitizeSQL sql =
     (if length (statements sql) > 1 then hd (statements sql) else trim sql)"

definition validateAndPrepareSQL :: "string \<Rightarrow> nat \<Rightarrow> prepared" where
  "validateAndPrepareSQL sql teacherId =
     (let cleanSQL = sanitizeSQL sql;
          validation = validateSQL cleanSQL teacherId
      in if \<not> v_valid validation then
           \<lparr>p_success = False, p_error = v_error validation, p_sql = None\<rparr>
         else
           \<lparr>p_success = True, p_error = None,
            p_sql = Some (injectTeacherFilter cleanSQL teacherId)\<rparr>)"


section \<open>Chat controller (controllers/rickController.js)\<close>

text \<open>A thrown JavaScript \<open>Error\<close>, with its \<open>message\<close>.\<close>

datatype exn = Error (message: string)

text \<open>The results of the collaborators \<open>ollamaService.generateSQL\<close> and
  \<open>queryService.executeDynamicQuery\<close>, as \<open>handleChat\<close> reads them; \<open>'r\<close> is a result row.\<close>

record sql_result =
  g_success :: bool
  g_sql :: string

record 'r query_result =
  q_success :: bool
  q_error :: "string option"
  q_results :: "'r list"

text \<open>The JSON body \<open>handleChat\<close> sends, with the HTTP status; an absent key is \<open>None\<close>.\<close>

record 'r chat_reply =
  b_status :: nat
  b_success :: bool
  b_response :: "string option"
  b_error :: "string option"
  b_data :: "'r list option"
  b_needsData :: "bool option"

text \<open>
  The branch \<open>if (needsData)\<close> of \<open>handleChat\<close>, with the \<open>catch\<close> around it: the path of a
  message that is neither a command nor a quick query and that \<open>requiresDataQuery\<close> accepts.
  The collaborators are parameters; each may throw (\<open>Inl\<close>).
\<close>

definition handleChatData ::
  "(exn + sql_result) \<Rightarrow> (string \<Rightarrow> nat \<Rightarrow> exn + 'r query_result) \<Rightarrow>
   ('r list \<Rightarrow> exn + string) \<Rightarrow> nat \<Rightarrow> 'r chat_reply" where
  "handleChatData generateSQL executeDynamicQuery formatResponse teacherId =
     (let caught = \<lparr>b_status = 500, b_success = False, b_response = None,
                     b_error = Some ''An error occurred while processing your message'',
                     b_data = None, b_needsData = None\<rparr>
      in case generateSQL of
           Inl e \<Rightarrow> caught
         | Inr sqlResult \<Rightarrow>
             if \<not> g_success sqlResult then
               \<lparr>b_status = 200, b_success = True,
                b_response = Some ''I had trouble understanding that query. Could you rephrase it?'',
                b_error = None, b_data = None, b_needsData = Some False\<rparr>
             else
               (case executeDynamicQuery (g_sql sqlResult) teacherId of
                  Inl e \<Rightarrow> caught
                | Inr queryResult \<Rightarrow>
                    if \<not> q_success queryResult then
                      \<lparr>b_status = 200, b_success = True,
                       b_response = Some (''I couldn'' @ [CHR 0x27] @
                          ''t execute that query. Let me try to help another way.''),
                       b_error = q_error queryResult, b_data = None, b_needsData = None\<rparr>
                    else
                      (case formatResponse (q_results queryResult) of
                         Inl e \<Rightarrow> caught
                       | Inr formatted \<Rightarrow>
                           \<lparr>b_status = 200, b_success = True, b_response = Some formatted,
                            b_error = None, b_data = Some (q_results queryResult),
                            b_needsData = Some True\<rparr>)))"

text \<open>The fixed texts \<open>handleChat\<close> and \<open>handleQuickQuery\<close> answer a failure with.\<close>

definition safeMessages :: "string list" where
  "safeMessages =
     [''I had trouble understanding that query. Could you rephrase it?'',
      ''I couldn'' @ [CHR 0x27] @ ''t execute that query. Let me try to help another way.'',
      ''I had trouble running that query. Please try again.'',
      ''An error occurred while processing your message'']"


section \<open>Memory store (services/memoryService.js, utils/contextBuilder.js)\<close>




text \<open>
  The text of the \<open>tags\<close> column, by what \<open>JSON.parse(m.tags || '[]')\<close> makes of it: NULL or
  empty, the JSON of a list of strings, or text that \<open>JSON.parse\<close> rejects with a message.
\<close>

datatype tags_text = TagsNull | TagsJson "string list" | TagsMalformed string

record memory_row =
  m_id :: nat
  m_teacher_id :: nat
  m_student_id :: "nat option"
  m_memory_content :: string
  m_tags :: tags_text
  m_created_at :: nat
  m_updated_at :: "nat option"

text \<open>
  The connection pool with the database behind it: the table \<open>rick_memory\<close>, the names of
  the table \<open>students\<close> by id, the next AUTO_INCREMENT id, the value of \<open>NOW()\<close>, the
  collation's \<open>text LIKE pattern\<close>, and \<open>fault\<close>: when set, \<open>pool.execute\<close> throws an Error
  with that message. \<open>ORDER BY\<close> leaves the order of rows of equal key to the engine:
  \<open>ties\<close> is the order in which the engine meets the rows of the table.
\<close>

record pool =
  rick_memory :: "memory_row list"
  students :: "(nat \<times> string) list"
  auto_increment :: nat
  now :: nat
  like :: "string \<Rightarrow> string \<Rightarrow> bool"
  ties :: "memory_row list \<Rightarrow> memory_row list"
  fault :: "string option"




record change_result =
  c_success :: bool
  c_message :: "string option"
  c_error :: "string option"

text \<open>\<open>try { body } catch (error) { handler }\<close> around a body that changes the store.\<close>

definition tryCatch :: "(exn + 'a) \<times> 's \<Rightarrow> (exn \<Rightarrow> exn + 'a) \<Rightarrow> (exn + 'a) \<times> 's" where
  "tryCatch body handler =
     (case fst body of Inl error \<Rightarrow> (handler error, snd body) | Inr v \<Rightarrow> (Inr v, snd body))"




text \<open>\<open>DELETE FROM rick_memory WHERE id = ? AND teacher_id = ?\<close>: the \<open>affectedRows\<close>.\<close>

definition executeDelete :: "pool \<Rightarrow> nat \<Rightarrow> nat \<Rightarrow> (exn + nat) \<times> pool" where
  "executeDelete db memoryId teacherId =
     (case fault db of
        Some msg \<Rightarrow> (Inl (Error msg), db)
      | None \<Rightarrow>
          (let hit = (\<lambda>m. m_id m = memoryId \<and> m_teacher_id m = teacherId) in
           (Inr (length (filter hit (rick_memory db))),
            db\<lparr>rick_memory := filter (\<lambda>m. \<not> hit m) (rick_memory db)\<rparr>)))"








definition changeFailure :: "exn \<Rightarrow> exn + change_result" where
  "changeFailure error = Inr \<lparr>c_success = False, c_message = None, c_error = Some (message error)\<rparr>"

definition deleteMemory :: "pool \<Rightarrow> nat \<Rightarrow> nat \<Rightarrow> (exn + change_result) \<times> pool" where
  "deleteMemory db teacherId memoryId =
     tryCatch
       (case executeDelete db memoryId teacherId of
          (Inl e, db') \<Rightarrow> (Inl e, db')
        | (Inr affectedRows, db') \<Rightarrow>
            if affectedRows = 0 then
              (Inr \<lparr>c_success = False, c_message = None,
                    c_error = Some ''Memory not found or you do not have permission to delete it''\<rparr>,
               db')
            else
              (Inr \<lparr>c_success = True, c_message = Some ''Memory deleted successfully'',
                    c_error = None\<rparr>, db'))
       changeFailure"



text \<open>
  A small store for examples: tenant 1 has two notes, tenant 2 has one, and \<open>LIKE\<close> with a
  pattern \<open>%name%\<close> is a case-sensitive search for \<open>name\<close>.
\<close>

definition exampleRows :: "memory_row list" where
  "exampleRows =
     [\<lparr>m_id = 1, m_teacher_id = 1, m_student_id = None,
       m_memory_content = ''Joe struggled with fractions'', m_tags = TagsJson [''Joe''],
       m_created_at = 10, m_updated_at = None\<rparr>,
      \<lparr>m_id = 2, m_teacher_id = 2, m_student_id = None,
       m_memory_content = ''Joe skipped class'', m_tags = TagsJson [''Joe''],
       m_created_at = 20, m_updated_at = None\<rparr>,
      \<lparr>m_id = 3, m_teacher_id = 1, m_student_id = None,
       m_memory_content = ''Ann likes geometry'', m_tags = TagsNull,
       m_created_at = 30, m_updated_at = None\<rparr>]"

definition examplePool :: pool where
  "examplePool =
     \<lparr>rick_memory = exampleRows, students = [], auto_increment = 4, now = 40,
      like = (\<lambda>text pattern. includesStr text (filter (\<lambda>c. c \<noteq> CHR ''%'') pattern)),
      ties = (\<lambda>rows. rows), fault = None\<rparr>"


section \<open>Blocked keywords\<close>

lemma includesStr_upper_append:
  "includesStr (toUpperCase (pre @ w @ post)) (toUpperCase w)"
  by (simp add: includesStr_def toUpperCase_def)

text \<open>
  C7: a statement that contains a blocked keyword, in any letter case and at any position,
  is rejected by \<open>validateSQL\<close>. The statement is \<open>pre @ w @ post\<close>, where \<open>w\<close> is the keyword
  in some letter case.
\<close>

theorem validateSQL_rejects_blocked_keyword:
  assumes "keyword \<in> set blockedKeywords" and "toUpperCase w = keyword"
  shows "v_valid (validateSQL (pre @ w @ post) teacherId) = False"
proof -
  have "includesStr (toUpperCase (pre @ w @ post)) keyword"
    using assms(2) includesStr_upper_append by blast
  with assms(1) have "find (\<lambda>k. includesStr (toUpperCase (pre @ w @ post)) k) blockedKeywords \<noteq> None"
    by (auto simp: find_None_iff)
  then show ?thesis
    by (auto simp: validateSQL_def Let_def split: option.splits)
qed

theorem validateSQL_rejects_blocked_keyword_witness:
  "''DROP'' \<in> set blockedKeywords \<and> toUpperCase ''dRoP'' = ''DROP'' \<and>
   v_valid (validateSQL (''SELECT name FROM students WHERE teacher_id = 1 OR (''
      @ ''dRoP'' @ '' TABLE grades)'') 1) = False"
proof -
  have k: "''DROP'' \<in> set blockedKeywords"
    by (simp add: blockedKeywords_def)
  have u: "toUpperCase ''dRoP'' = ''DROP''"
    by code_simp
  show ?thesis
    using k u validateSQL_rejects_blocked_keyword [OF k u,
        of "''SELECT name FROM students WHERE teacher_id = 1 OR (''" "'' TABLE grades)''" 1]
    by simp
qed


section \<open>Several statements in one input\<close>

lemma split_no_separator: "x \<in> set (split d s) \<Longrightarrow> d \<notin> set x"
proof (induction s arbitrary: x)
  case Nil
  then show ?case by simp
next
  case (Cons c cs)
  then show ?case
    by (cases "split d cs") (auto split: if_splits)
qed

lemma statements_no_semicolon: "x \<in> set (statements sql) \<Longrightarrow> CHR '';'' \<notin> set x"
  by (auto simp: statements_def dest: split_no_separator)

text \<open>
  C1, as the code has it: an input with more than one non-blank statement is not rejected
  for that. \<open>sanitizeSQL\<close> keeps the first non-blank statement, which holds no semicolon,
  and \<open>validateAndPrepareSQL\<close> answers what validation and injection make of that first
  statement alone; the statements after it are never looked at. The input
  "SELECT * FROM students; DROP TABLE grades;" is rejected because its first statement
  has no \<open>teacher_id\<close>.
\<close>

theorem validateAndPrepareSQL_truncates:
  assumes "1 < length (statements sql)"
  shows "sanitizeSQL sql = hd (statements sql) \<and> CHR '';'' \<notin> set (sanitizeSQL sql) \<and>
         validateAndPrepareSQL sql teacherId =
           (if v_valid (validateSQL (hd (statements sql)) teacherId)
            then \<lparr>p_success = True, p_error = None,
                  p_sql = Some (injectTeacherFilter (hd (statements sql)) teacherId)\<rparr>
            else \<lparr>p_success = False,
                  p_error = v_error (validateSQL (hd (statements sql)) teacherId), p_sql = None\<rparr>) \<and>
         validateAndPrepareSQL ''SELECT * FROM students; DROP TABLE grades;'' 42 =
           \<lparr>p_success = False, p_error = Some ''Query must filter by teacher_id'', p_sql = None\<rparr>"
proof -
  from assms have s: "sanitizeSQL sql = hd (statements sql)"
    by (simp add: sanitizeSQL_def)
  from assms have "statements sql \<noteq> []" by auto
  then have "hd (statements sql) \<in> set (statements sql)" by simp
  then have "CHR '';'' \<notin> set (hd (statements sql))"
    by (rule statements_no_semicolon)
  moreover have "validateAndPrepareSQL ''SELECT * FROM students; DROP TABLE grades;'' 42 =
      \<lparr>p_success = False, p_error = Some ''Query must filter by teacher_id'', p_sql = None\<rparr>"
    by code_simp
  ultimately show ?thesis using s
    by (simp add: validateAndPrepareSQL_def Let_def)
qed

theorem validateAndPrepareSQL_truncates_witness:
  "1 < length (statements ''SELECT * FROM students; DROP TABLE grades;'') \<and>
   validateAndPrepareSQL ''SELECT * FROM students; DROP TABLE grades;'' 42 =
     \<lparr>p_success = False, p_error = Some ''Query must filter by teacher_id'', p_sql = None\<rparr>"
proof -
  have h: "1 < length (statements ''SELECT * FROM students; DROP TABLE grades;'')"
    by code_simp
  have st: "hd (statements ''SELECT * FROM students; DROP TABLE grades;'') = ''SELECT * FROM students''"
    by code_simp
  have v: "validateSQL ''SELECT * FROM students'' 42 =
      \<lparr>v_valid = False, v_error = Some ''Query must filter by teacher_id''\<rparr>"
    by code_simp
  show ?thesis
    using h validateAndPrepareSQL_truncates [OF h, of 42] by (simp add: st v)
qed

text \<open>C1, as stated, fails: a two-statement input whose first statement is valid is
  accepted, cut down to that first statement.\<close>

theorem validateAndPrepareSQL_multi_statement_counterexample:
  "validateAndPrepareSQL ''SELECT * FROM students WHERE teacher_id = 1; DROP TABLE grades;'' 1 =
     \<lparr>p_success = True, p_error = None,
      p_sql = Some ''SELECT * FROM students WHERE teacher_id = 1 AND teacher_id = 1''\<rparr>"
  by code_simp


section \<open>Inputs that escape the checks\<close>

text \<open>
  C2 at a failing input: \<open>FROM(students)\<close> has no whitespace after \<open>FROM\<close>, so no table is
  extracted and no filter is injected; the statement is accepted and returned as it came,
  with no predicate on tenant 42.
\<close>

theorem validateAndPrepareSQL_unfiltered:
  "validateAndPrepareSQL ''SELECT teacher_id, name FROM(students)'' 42 =
     \<lparr>p_success = True, p_error = None, p_sql = Some ''SELECT teacher_id, name FROM(students)''\<rparr>"
  by code_simp

text \<open>
  C3 at a failing input: the table after \<open>JOIN\<close> is not extracted, so a statement that joins
  the table \<open>users\<close>, which is not allowed, is valid.
\<close>

theorem validateSQL_join_unchecked:
  "''users'' \<notin> set allowedTables \<and>
   validateSQL ''SELECT s.name FROM students s JOIN users u ON u.id = s.id WHERE s.teacher_id = 1'' 1 =
     \<lparr>v_valid = True, v_error = None\<rparr>"
  by code_simp


section \<open>Injecting the tenant filter\<close>


lemma prefix_map_take: "prefix p (map f s) \<longleftrightarrow> map f (take (length p) s) = p"
proof
  assume "prefix p (map f s)"
  then obtain r where "map f s = p @ r" by (auto simp: prefix_def)
  then have "take (length p) (map f s) = p" by simp
  then show "map f (take (length p) s) = p" by (simp add: take_map)
next
  assume "map f (take (length p) s) = p"
  then have "p = take (length p) (map f s)" by (simp add: take_map)
  then show "prefix p (map f s)" by (metis take_is_prefix)
qed

lemma whereAt_prefix: "whereAt s \<longleftrightarrow> prefix ''where'' (toLowerCase s)"
proof -
  have "prefix ''where'' (map lowerChar s) \<longleftrightarrow> map lowerChar (take (length ''where'') s) = ''where''"
    by (rule prefix_map_take)
  moreover have "length ''where'' = 5" by simp
  ultimately show ?thesis
    by (simp only: whereAt_def toLowerCase_def)
qed

lemma includes_where_Cons:
  "includesStr (toLowerCase (c # cs)) ''where'' \<longleftrightarrow>
     whereAt (c # cs) \<or> includesStr (toLowerCase cs) ''where''"
  unfolding includesStr_def whereAt_prefix
  by (simp add: toLowerCase_def sublist_Cons_right)

lemma whereAt_length: "whereAt s \<Longrightarrow> 5 \<le> length s"
proof -
  assume "whereAt s"
  then have "length (toLowerCase (take 5 s)) = 5" by (simp add: whereAt_def)
  then show ?thesis by (simp add: toLowerCase_def)
qed

lemma replaceWhere_length:
  "includesStr (toLowerCase s) ''where'' \<Longrightarrow> length (replaceWhere s r) + 5 = length s + length r"
proof (induction s)
  case Nil
  then show ?case by (simp add: includesStr_def toLowerCase_def)
next
  case (Cons c cs)
  show ?case
  proof (cases "whereAt (c # cs)")
    case True
    then have "5 \<le> length (c # cs)" by (rule whereAt_length)
    with True show ?thesis by simp
  next
    case False
    with Cons.prems have "includesStr (toLowerCase cs) ''where''"
      by (simp add: includes_where_Cons)
    with Cons.IH False show ?thesis by simp
  qed
qed

lemma replaceWhere_here: "whereAt s \<Longrightarrow> replaceWhere s r = r @ drop 5 s"
  by (cases s) (auto simp: whereAt_def toLowerCase_def)

lemma replaceWhere_first:
  assumes "toLowerCase w = ''where''" and "\<forall>i<length pre. \<not> whereAt (drop i (pre @ w @ post))"
  shows "replaceWhere (pre @ w @ post) r = pre @ r @ post"
  using assms(2)
proof (induction pre)
  case Nil
  have "length (toLowerCase w) = length ''where''"
    by (simp only: assms(1))
  then have len: "length w = 5"
    by (simp add: toLowerCase_def)
  then have "whereAt (w @ post)" using assms(1) by (simp add: whereAt_def)
  then have "replaceWhere (w @ post) r = r @ drop 5 (w @ post)"
    by (rule replaceWhere_here)
  with len show ?case by simp
next
  case (Cons c pre)
  from Cons.prems have "\<not> whereAt (c # pre @ w @ post)" by force
  moreover from Cons.prems have "\<forall>i<length pre. \<not> whereAt (drop i (pre @ w @ post))" by force
  ultimately show ?case using Cons.IH by simp
qed

lemma where_leftmost:
  "includesStr (toLowerCase s) ''where'' \<Longrightarrow>
   \<exists>pre w post. s = pre @ w @ post \<and> toLowerCase w = ''where'' \<and>
      (\<forall>i<length pre. \<not> whereAt (drop i s))"
proof (induction s)
  case Nil
  then show ?case by (simp add: includesStr_def toLowerCase_def)
next
  case (Cons c cs)
  show ?case
  proof (cases "whereAt (c # cs)")
    case True
    then have "c # cs = [] @ take 5 (c # cs) @ drop 5 (c # cs) \<and> toLowerCase (take 5 (c # cs)) = ''where''"
      by (simp add: whereAt_def)
    then show ?thesis
      by (intro exI[of _ "[]"] exI[of _ "take 5 (c # cs)"] exI[of _ "drop 5 (c # cs)"]) simp
  next
    case False
    with Cons.prems have "includesStr (toLowerCase cs) ''where''"
      by (simp add: includes_where_Cons)
    with Cons.IH obtain pre w post where p: "cs = pre @ w @ post" "toLowerCase w = ''where''"
        "\<forall>i<length pre. \<not> whereAt (drop i cs)" by blast
    have "\<forall>i<length (c # pre). \<not> whereAt (drop i (c # cs))"
    proof (intro allI impI)
      fix i assume "i < length (c # pre)"
      then show "\<not> whereAt (drop i (c # cs))"
        using False p(3) by (cases i) auto
    qed
    with p(1,2) have "c # cs = (c # pre) @ w @ post \<and> toLowerCase w = ''where'' \<and>
       (\<forall>i<length (c # pre). \<not> whereAt (drop i (c # cs)))" by simp
    then show ?thesis by blast
  qed
qed

lemma replaceFrom_has_where:
  "matchFromAt m \<noteq> None \<Longrightarrow> \<exists>a b. replaceFrom (pre @ m) tid = a @ ''WHERE'' @ b"
proof (induction pre)
  case Nil
  then obtain name rest where mm: "matchFromAt m = Some (name, rest)" by auto
  then have "m \<noteq> []" by (auto simp: matchFromAt_def toLowerCase_def)
  then obtain c cs where "m = c # cs" by (cases m) auto
  with mm have "replaceFrom ([] @ m) tid = (''FROM '' @ name @ '' '') @ ''WHERE'' @ ('' teacher_id = '' @ tid @ rest)"
    by simp
  then show ?case by blast
next
  case (Cons c pre)
  then obtain a b where ab: "replaceFrom (pre @ m) tid = a @ ''WHERE'' @ b" by blast
  show ?case
  proof (cases "matchFromAt (c # pre @ m)")
    case None
    with ab have "replaceFrom ((c # pre) @ m) tid = (c # a) @ ''WHERE'' @ b" by simp
    then show ?thesis by blast
  next
    case (Some x)
    obtain name rest where "x = (name, rest)" by (cases x)
    with Some have "replaceFrom ((c # pre) @ m) tid = (''FROM '' @ name @ '' '') @ ''WHERE'' @ ('' teacher_id = '' @ tid @ rest)"
      by simp
    then show ?thesis by blast
  qed
qed

lemma matchFromAt_includes_from:
  assumes "matchFromAt m \<noteq> None"
  shows "includesStr (toLowerCase (pre @ m)) ''from''"
proof -
  from assms have "toLowerCase (take 4 m) = ''from''"
    by (auto simp: matchFromAt_def split: if_splits)
  moreover have "toLowerCase (pre @ m) = toLowerCase pre @ toLowerCase (take 4 m) @ toLowerCase (drop 4 m)"
    unfolding toLowerCase_def by (simp only: map_append [symmetric] append_take_drop_id)
  ultimately have "toLowerCase (pre @ m) = toLowerCase pre @ ''from'' @ toLowerCase (drop 4 m)"
    by (simp only:)
  moreover have "sublist ''from'' (toLowerCase pre @ ''from'' @ toLowerCase (drop 4 m))"
    by (rule sublist_appendI)
  ultimately show ?thesis by (simp only: includesStr_def)
qed

lemma lower_WHERE: "toLowerCase ''WHERE'' = ''where''"
  by code_simp

lemma includes_where_shape: "includesStr (toLowerCase (a @ ''WHERE'' @ b)) ''where''"
proof -
  have "toLowerCase (a @ ''WHERE'' @ b) = toLowerCase a @ toLowerCase ''WHERE'' @ toLowerCase b"
    by (simp add: toLowerCase_def)
  then show ?thesis
    by (simp only: lower_WHERE includesStr_def sublist_appendI)
qed

lemma injectTeacherFilter_has_where:
  assumes "includesStr (toLowerCase sql) ''where'' \<or> (\<exists>pre m. sql = pre @ m \<and> matchFromAt m \<noteq> None)"
  shows "includesStr (toLowerCase (injectTeacherFilter sql t)) ''where''"
proof (cases "includesStr (toLowerCase sql) ''where''")
  case True
  then obtain pre w post where p: "sql = pre @ w @ post" "toLowerCase w = ''where''"
      "\<forall>i<length pre. \<not> whereAt (drop i sql)"
    using where_leftmost by blast
  then have "replaceWhere sql (''WHERE teacher_id = '' @ decimal t @ '' AND'')
      = pre @ (''WHERE teacher_id = '' @ decimal t @ '' AND'') @ post"
    using replaceWhere_first by blast
  then have "injectTeacherFilter sql t = pre @ ''WHERE'' @ ('' teacher_id = '' @ decimal t @ '' AND'' @ post)"
    using True by (simp add: injectTeacherFilter_def)
  then show ?thesis by (simp only: includes_where_shape)
next
  case False
  with assms obtain pre m where pm: "sql = pre @ m" "matchFromAt m \<noteq> None" by blast
  then have "includesStr (toLowerCase sql) ''from''"
    using matchFromAt_includes_from by blast
  with False have "injectTeacherFilter sql t = replaceFrom sql (decimal t)"
    by (simp add: injectTeacherFilter_def)
  with pm obtain a b where "injectTeacherFilter sql t = a @ ''WHERE'' @ b"
    using replaceFrom_has_where by metis
  then show ?thesis by (simp only: includes_where_shape)
qed

text \<open>
  C5 at a failing input: the statement is validated and has the clause
  \<open>WHERE grade < 60\<close>, but the leftmost \<open>where\<close> is inside the column name \<open>nowhere\<close>. The
  predicate is put there, inside the column list, and the \<open>WHERE\<close> clause is left as it
  was, without the predicate.
\<close>

theorem injectTeacherFilter_where_in_identifier:
  "v_valid (validateSQL ''SELECT nowhere, teacher_id FROM students WHERE grade < 60'' 42) \<and>
   injectTeacherFilter ''SELECT nowhere, teacher_id FROM students WHERE grade < 60'' 42 =
     ''SELECT noWHERE teacher_id = 42 AND, teacher_id FROM students WHERE grade < 60''"
  by code_simp

text \<open>The scenario without a \<open>WHERE\<close> clause: the clause is put after \<open>FROM students\<close>,
  with blanks around \<open>=\<close>.\<close>

lemma injectTeacherFilter_scenario:
  "injectTeacherFilter ''SELECT name FROM students'' 42 =
     ''SELECT name FROM students WHERE teacher_id = 42''"
  by code_simp

text \<open>
  C6, as the code has it: \<open>injectTeacherFilter\<close> is not idempotent. Whenever the statement
  holds \<open>where\<close> or a match of \<open>FROM\<close>, whitespace and a name, the result of the first
  application holds \<open>WHERE\<close>, so a second application for the same tenant puts the
  predicate in once more: the result grows by the 18 characters of \<open> teacher_id =  AND\<close>
  and the digits of the id. \<open>validateAndPrepareSQL\<close> applies it once.
\<close>

theorem injectTeacherFilter_twice_duplicates:
  assumes "includesStr (toLowerCase sql) ''where'' \<or> (\<exists>pre m. sql = pre @ m \<and> matchFromAt m \<noteq> None)"
  shows "length (injectTeacherFilter (injectTeacherFilter sql t) t) =
           length (injectTeacherFilter sql t) + 18 + length (decimal t) \<and>
         injectTeacherFilter (injectTeacherFilter sql t) t \<noteq> injectTeacherFilter sql t"
proof -
  let ?out = "injectTeacherFilter sql t"
  have w: "includesStr (toLowerCase ?out) ''where''"
    using assms by (rule injectTeacherFilter_has_where)
  then have "injectTeacherFilter ?out t = replaceWhere ?out (''WHERE teacher_id = '' @ decimal t @ '' AND'')"
    by (simp add: injectTeacherFilter_def)
  moreover have "length (replaceWhere ?out (''WHERE teacher_id = '' @ decimal t @ '' AND'')) + 5
     = length ?out + length (''WHERE teacher_id = '' @ decimal t @ '' AND'')"
    using w by (rule replaceWhere_length)
  ultimately have "length (injectTeacherFilter ?out t) = length ?out + 18 + length (decimal t)"
    by simp
  then show ?thesis by auto
qed

theorem injectTeacherFilter_twice_duplicates_witness:
  "(includesStr (toLowerCase ''SELECT name FROM students'') ''where'' \<or>
    (\<exists>pre m. ''SELECT name FROM students'' = pre @ m \<and> matchFromAt m \<noteq> None)) \<and>
   length (injectTeacherFilter (injectTeacherFilter ''SELECT name FROM students'' 42) 42) =
     length (injectTeacherFilter ''SELECT name FROM students'' 42) + 18 + length (decimal 42) \<and>
   injectTeacherFilter (injectTeacherFilter ''SELECT name FROM students'' 42) 42 \<noteq>
     injectTeacherFilter ''SELECT name FROM students'' 42"
proof -
  have "matchFromAt ''FROM students'' \<noteq> None"
    by code_simp
  moreover have "''SELECT name FROM students'' = ''SELECT name '' @ ''FROM students''"
    by simp
  ultimately have h: "includesStr (toLowerCase ''SELECT name FROM students'') ''where'' \<or>
    (\<exists>pre m. ''SELECT name FROM students'' = pre @ m \<and> matchFromAt m \<noteq> None)"
    by blast
  from h injectTeacherFilter_twice_duplicates [OF h, of 42] show ?thesis by blast
qed

text \<open>C6, as stated, fails: the second application changes the statement.\<close>

theorem injectTeacherFilter_twice_counterexample:
  "injectTeacherFilter (injectTeacherFilter ''SELECT name FROM students'' 42) 42 \<noteq>
     injectTeacherFilter ''SELECT name FROM students'' 42"
  by code_simp



section \<open>Failures of a data query\<close>


text \<open>
  C4 at a failing input: when \<open>executeDynamicQuery\<close> reports a failure with a reason, the
  body sent to the caller has a fixed \<open>response\<close> text and, under the key \<open>error\<close>, that
  reason as it came.
\<close>

theorem handleChatData_echoes_reason:
  "b_error (handleChatData (Inr \<lparr>g_success = True, g_sql = sql\<rparr>)
      (\<lambda>s t. Inr \<lparr>q_success = False, q_error = Some reason, q_results = []\<rparr>)
      formatResponse teacherId) = Some reason \<and>
   b_response (handleChatData (Inr \<lparr>g_success = True, g_sql = sql\<rparr>)
      (\<lambda>s t. Inr \<lparr>q_success = False, q_error = Some reason, q_results = []\<rparr>)
      formatResponse teacherId) = Some (safeMessages ! 1) \<and>
   b_success (handleChatData (Inr \<lparr>g_success = True, g_sql = sql\<rparr>)
      (\<lambda>s t. Inr \<lparr>q_success = False, q_error = Some reason, q_results = []\<rparr>)
      formatResponse teacherId) = True"
  by (simp add: handleChatData_def safeMessages_def)


section \<open>Deleting a memory\<close>

lemma executeDelete_miss:
  assumes "\<forall>m \<in> set (rick_memory db). m_id m = k \<longrightarrow> m_teacher_id m \<noteq> A"
  shows "executeDelete db k A =
           (case fault db of Some msg \<Rightarrow> (Inl (Error msg), db) | None \<Rightarrow> (Inr 0, db))"
proof -
  from assms have "filter (\<lambda>m. m_id m = k \<and> m_teacher_id m = A) (rick_memory db) = []"
    by (auto simp: filter_empty_conv)
  moreover from assms have "filter (\<lambda>m. \<not> (m_id m = k \<and> m_teacher_id m = A)) (rick_memory db) = rick_memory db"
    by (auto simp: filter_id_conv)
  ultimately show ?thesis
    by (simp add: executeDelete_def Let_def split: option.splits)
qed

lemma deleteMemory_miss:
  assumes "\<forall>m \<in> set (rick_memory db). m_id m = k \<longrightarrow> m_teacher_id m \<noteq> A"
  shows "deleteMemory db A k =
           (Inr \<lparr>c_success = False, c_message = None,
                 c_error = Some (case fault db of
                                   Some msg \<Rightarrow> msg
                                 | None \<Rightarrow> ''Memory not found or you do not have permission to delete it'')\<rparr>,
            db)"
  by (simp add: deleteMemory_def executeDelete_miss [OF assms] tryCatch_def changeFailure_def
      split: option.splits)

lemma deleteMemory_keeps_others:
  assumes "m \<in> set (rick_memory db)" and "m_teacher_id m \<noteq> A"
  shows "m \<in> set (rick_memory (snd (deleteMemory db A k)))"
  using assms
  by (auto simp: deleteMemory_def executeDelete_def tryCatch_def changeFailure_def Let_def
      split: option.splits)

text \<open>
  C8: \<open>deleteMemory\<close> for tenant \<open>A\<close> removes only rows of tenant \<open>A\<close>; and for an id \<open>i\<close>
  held by another tenant \<open>B\<close> (no row of \<open>A\<close> has it) and an id \<open>j\<close> that no row has, the
  two calls return the same result and leave the store as it was. With a working store
  that result is the failure "Memory not found or you do not have permission to delete
  it".
\<close>

theorem deleteMemory_tenant_scoped:
  assumes "\<exists>m \<in> set (rick_memory db). m_id m = i \<and> m_teacher_id m = B"
    and "\<forall>m \<in> set (rick_memory db). m_id m = i \<longrightarrow> m_teacher_id m \<noteq> A"
    and "\<forall>m \<in> set (rick_memory db). m_id m \<noteq> j"
  shows "deleteMemory db A i = deleteMemory db A j \<and>
         snd (deleteMemory db A i) = db \<and>
         (fault db = None \<longrightarrow>
            fst (deleteMemory db A i) =
              Inr \<lparr>c_success = False, c_message = None,
                   c_error = Some ''Memory not found or you do not have permission to delete it''\<rparr>) \<and>
         (\<forall>k. \<forall>m \<in> set (rick_memory db).
            m_teacher_id m \<noteq> A \<longrightarrow> m \<in> set (rick_memory (snd (deleteMemory db A k))))"
proof -
  from assms(3) have j: "\<forall>m \<in> set (rick_memory db). m_id m = j \<longrightarrow> m_teacher_id m \<noteq> A"
    by simp
  have "deleteMemory db A i = deleteMemory db A j"
    by (simp only: deleteMemory_miss [OF assms(2)] deleteMemory_miss [OF j])
  moreover have "snd (deleteMemory db A i) = db"
    by (simp add: deleteMemory_miss [OF assms(2)])
  moreover have "fault db = None \<longrightarrow>
            fst (deleteMemory db A i) =
              Inr \<lparr>c_success = False, c_message = None,
                   c_error = Some ''Memory not found or you do not have permission to delete it''\<rparr>"
    by (simp add: deleteMemory_miss [OF assms(2)])
  moreover have "\<forall>k. \<forall>m \<in> set (rick_memory db).
            m_teacher_id m \<noteq> A \<longrightarrow> m \<in> set (rick_memory (snd (deleteMemory db A k)))"
    using deleteMemory_keeps_others by blast
  ultimately show ?thesis by blast
qed

theorem deleteMemory_tenant_scoped_witness:
  "(\<exists>m \<in> set (rick_memory examplePool). m_id m = 2 \<and> m_teacher_id m = 2) \<and>
   list_all (\<lambda>m. \<not> (m_id m = 2 \<and> m_teacher_id m = 1)) (rick_memory examplePool) \<and>
   list_all (\<lambda>m. m_id m \<noteq> 99) (rick_memory examplePool) \<and>
   deleteMemory examplePool 1 2 = deleteMemory examplePool 1 99 \<and>
   snd (deleteMemory examplePool 1 2) = examplePool \<and>
   fst (deleteMemory examplePool 1 2) =
     Inr \<lparr>c_success = False, c_message = None,
          c_error = Some ''Memory not found or you do not have permission to delete it''\<rparr>"
proof -
  have h1: "\<exists>m \<in> set (rick_memory examplePool). m_id m = 2 \<and> m_teacher_id m = 2"
    by (simp add: examplePool_def exampleRows_def)
  have h2: "\<forall>m \<in> set (rick_memory examplePool). m_id m = 2 \<longrightarrow> m_teacher_id m \<noteq> 1"
    by (simp add: examplePool_def exampleRows_def)
  have h3: "\<forall>m \<in> set (rick_memory examplePool). m_id m \<noteq> 99"
    by (simp add: examplePool_def exampleRows_def)
  have h4: "fault examplePool = None"
    by (simp add: examplePool_def)
  have l2: "list_all (\<lambda>m. \<not> (m_id m = 2 \<and> m_teacher_id m = 1)) (rick_memory examplePool)"
    by (simp add: examplePool_def exampleRows_def)
  have l3: "list_all (\<lambda>m. m_id m \<noteq> 99) (rick_memory examplePool)"
    by (simp add: examplePool_def exampleRows_def)
  from h1 l2 l3 h4 deleteMemory_tenant_scoped [OF h1 h2 h3] show ?thesis by blast
qed


section \<open>Exceptions stay inside the memory service\<close>









section \<open>Recall of relevant memories\<close>




















end
